theory Spec2Isabelle
  imports Main "HOL-Library.Word" "HOL-Library.Multiset"
begin

section \<open>Data model\<close>

text \<open>
  A commit reference is go-git's \<^verbatim>\<open>plumbing.Hash\<close>, an array of 20 bytes, read here as
  one 160-bit word. \<^verbatim>\<open>zeroHash\<close> is the all-zero array and \<^verbatim>\<open>IsZero\<close> compares with it.
\<close>

type_synonym hash = "160 word"

definition zeroHash :: hash where
  "zeroHash = 0"

definition IsZero :: "hash \<Rightarrow> bool" where
  "IsZero h = (h = zeroHash)"

text \<open>
  Errors are values. The first five are errors of the git library: the ones the engine
  compares against, and the ones the library reports when something is missing.
  \<^verbatim>\<open>errors.New\<close> is \<open>Msg\<close>; \<^verbatim>\<open>utils.WrapErr(err, format, args...)\<close> is \<open>WrapErr\<close>, which keeps
  the wrapped error and the format string (the formatted arguments are not kept).
\<close>

datatype error =
    ErrRepositoryNotExists
  | ErrTagNotFound
  | ErrTagExists
  | ErrObjectNotFound
  | ErrDirectoryNotFound
  | Msg string
  | WrapErr error string

text \<open>
  \<^verbatim>\<open>object.Change\<close>: the engine reads only \<^verbatim>\<open>change.From.Name\<close> and \<^verbatim>\<open>change.To.Name\<close>.
\<close>

record change =
  From_Name :: string
  To_Name :: string

record Target =
  Url :: string
  Branch :: string
  Name :: string

record SingleMethodObj =
  Target :: Target
  Method :: string

text \<open>
  What the engine's side effects leave behind, in the order they happen: a tag created
  or deleted in the clone at a directory, and an invocation of the engine method on one
  change with its resolved path.
\<close>

datatype event =
    TagCreated string string hash
  | TagDeleted string string
  | MethodRun string change

text \<open>
  A local clone: its lightweight tags, its commits (each with the hash of its root tree)
  and its tree objects. The type \<open>'t\<close> of trees belongs to the git library.
\<close>

record 't repository =
  repo_tags :: "string \<rightharpoonup> hash"
  repo_commits :: "hash \<rightharpoonup> hash"
  repo_trees :: "hash \<rightharpoonup> 't"

text \<open>
  The world the engine runs in: the clones by directory, the index of the failed task
  whose report the dispatcher receives first (the scheduler's choice), and the trace of
  effects so far.
\<close>

record 't world =
  repos :: "string \<rightharpoonup> 't repository"
  sched :: nat
  trace :: "event list"

text \<open>
  The collaborators the engine calls and whose code is outside the repository: the path
  functions of the standard library, the tree operations of the git library, the glob
  compiler, and the method that applies one change. They are parameters of the model.
\<close>

record 't lib =
  filepath_Base :: "string \<Rightarrow> string"
  filepath_Join :: "string \<Rightarrow> string \<Rightarrow> string \<Rightarrow> string"
  empty_Tree :: 't
  tree_Tree :: "'t \<Rightarrow> string \<Rightarrow> error + 't"
  tree_Diff :: "'t \<Rightarrow> 't \<Rightarrow> error + change list"
  glob_Compile :: "string \<Rightarrow> error + (string \<Rightarrow> bool)"
  EngineMethod :: "SingleMethodObj \<Rightarrow> string \<Rightarrow> change \<Rightarrow> error option"

text \<open>
  Modelled from the spec: the constant \<^verbatim>\<open>deleteFile\<close> is declared outside the given
  sources; it is the reserved path sentinel meaning "this artifact is a deletion, not a
  write".
\<close>

definition deleteFile :: string where
  "deleteFile = ''delete''"

section \<open>The reference store of the git library\<close>

text \<open>
  The tags live in the clone's own reference namespace. The store is taken to be
  reliable: a directory either holds a repository or it does not, and on an open
  repository a tag operation fails only with the library's own \<open>ErrTagNotFound\<close> or
  \<open>ErrTagExists\<close>. The engine passes every other error of the library up, wrapped, as
  its definitions below show; failures of the storage medium itself are outside the
  model.

  \<^verbatim>\<open>git.PlainOpen(directory)\<close>: the handle of an open repository is its directory.
\<close>

definition git_PlainOpen :: "string \<Rightarrow> 't world \<Rightarrow> error + string" where
  "git_PlainOpen directory w =
     (case repos w directory of None \<Rightarrow> Inl ErrRepositoryNotExists | Some r \<Rightarrow> Inr directory)"

text \<open>\<^verbatim>\<open>repo.Tag(name)\<close>: the commit a tag points at, \<open>ErrTagNotFound\<close> when there is none.\<close>

definition repo_Tag :: "string \<Rightarrow> string \<Rightarrow> 't world \<Rightarrow> error + hash" where
  "repo_Tag repo tagName w =
     (case repos w repo of
        None \<Rightarrow> Inl ErrRepositoryNotExists
      | Some r \<Rightarrow>
          (case repo_tags r tagName of
             None \<Rightarrow> Inl ErrTagNotFound
           | Some c \<Rightarrow> Inr c))"

text \<open>\<^verbatim>\<open>repo.DeleteTag(name)\<close>: removes the tag, \<open>ErrTagNotFound\<close> when there is none.\<close>

definition repo_DeleteTag :: "string \<Rightarrow> string \<Rightarrow> 't world \<Rightarrow> error option \<times> 't world" where
  "repo_DeleteTag repo tagName w =
     (case repos w repo of
        None \<Rightarrow> (Some ErrRepositoryNotExists, w)
      | Some r \<Rightarrow>
          (case repo_tags r tagName of
             None \<Rightarrow> (Some ErrTagNotFound, w)
           | Some c \<Rightarrow>
               (None, w\<lparr>repos := (repos w)(repo \<mapsto> r\<lparr>repo_tags := (repo_tags r)(tagName := None)\<rparr>),
                        trace := trace w @ [TagDeleted repo tagName]\<rparr>)))"

text \<open>
  \<^verbatim>\<open>repo.CreateTag(name, hash, nil)\<close>: a lightweight tag; \<open>ErrTagExists\<close> when a tag of
  that name is there already, and then nothing is written.
\<close>

definition repo_CreateTag :: "string \<Rightarrow> string \<Rightarrow> hash \<Rightarrow> 't world \<Rightarrow> error option \<times> 't world" where
  "repo_CreateTag repo tagName c w =
     (case repos w repo of
        None \<Rightarrow> (Some ErrRepositoryNotExists, w)
      | Some r \<Rightarrow>
          (case repo_tags r tagName of
             Some old \<Rightarrow> (Some ErrTagExists, w)
           | None \<Rightarrow>
               (None, w\<lparr>repos := (repos w)(repo \<mapsto> r\<lparr>repo_tags := (repo_tags r)(tagName \<mapsto> c)\<rparr>),
                        trace := trace w @ [TagCreated repo tagName c]\<rparr>)))"

text \<open>The tag of a name in the clone at a directory, as an observer reads it.\<close>

definition tag_of :: "'t world \<Rightarrow> string \<Rightarrow> string \<Rightarrow> hash option" where
  "tag_of w directory tagName =
     (case repos w directory of None \<Rightarrow> None | Some r \<Rightarrow> repo_tags r tagName)"

text \<open>\<^verbatim>\<open>fmt.Sprintf("current-%s", method)\<close> and \<^verbatim>\<open>fmt.Sprintf("progress-%s", method)\<close>.\<close>

definition currentTag :: "string \<Rightarrow> string" where
  "currentTag method = ''current-'' @ method"

definition progressTag :: "string \<Rightarrow> string" where
  "progressTag method = ''progress-'' @ method"

section \<open>The state tag store\<close>

definition GetCurrent :: "'t lib \<Rightarrow> Target \<Rightarrow> string \<Rightarrow> 't world \<Rightarrow> error + hash" where
  "GetCurrent L target method w =
     (let directory = filepath_Base L (Url target);
          tagName = currentTag method
      in case git_PlainOpen directory w of
           Inl err \<Rightarrow> Inl (WrapErr err ''Error opening repository: %s'')
         | Inr repo \<Rightarrow>
             (case repo_Tag repo tagName w of
                Inl err \<Rightarrow>
                  if err = ErrTagNotFound then Inr zeroHash
                  else Inl (WrapErr err ''Error getting reference to current tag'')
              | Inr ref \<Rightarrow> Inr ref))"

definition UpdateCurrent :: "'t lib \<Rightarrow> Target \<Rightarrow> string \<Rightarrow> hash \<Rightarrow> 't world \<Rightarrow> error option \<times> 't world" where
  "UpdateCurrent L target method newCurrent w =
     (let directory = filepath_Base L (Url target);
          tagName = currentTag method
      in case git_PlainOpen directory w of
           Inl err \<Rightarrow> (Some (WrapErr err ''Error opening repository: %s''), w)
         | Inr repo \<Rightarrow>
             (case repo_DeleteTag repo tagName w of
                (err, w1) \<Rightarrow>
                  if err \<noteq> None \<and> err \<noteq> Some ErrTagNotFound
                  then (Some (WrapErr (the err) ''Error deleting old current tag''), w1)
                  else
                    (case repo_CreateTag repo tagName newCurrent w1 of
                       (Some err2, w2) \<Rightarrow> (Some (WrapErr err2 ''Error creating new current tag with hash %s''), w2)
                     | (None, w2) \<Rightarrow> (None, w2))))"

definition GetInProgress :: "'t lib \<Rightarrow> Target \<Rightarrow> string \<Rightarrow> 't world \<Rightarrow> error + hash" where
  "GetInProgress L target method w =
     (let directory = filepath_Base L (Url target);
          tagName = progressTag method
      in case git_PlainOpen directory w of
           Inl err \<Rightarrow> Inl (WrapErr err ''Error opening repository: %s'')
         | Inr repo \<Rightarrow>
             (case repo_Tag repo tagName w of
                Inl err \<Rightarrow>
                  if err = ErrTagNotFound then Inr zeroHash
                  else Inl (WrapErr err ''Error getting in progress tag'')
              | Inr ref \<Rightarrow> Inr ref))"

definition CreateInProgress :: "'t lib \<Rightarrow> Target \<Rightarrow> string \<Rightarrow> hash \<Rightarrow> 't world \<Rightarrow> error option \<times> 't world" where
  "CreateInProgress L target method latest w =
     (let directory = filepath_Base L (Url target);
          tagName = progressTag method
      in case git_PlainOpen directory w of
           Inl err \<Rightarrow> (Some (WrapErr err ''Error opening repository: %s''), w)
         | Inr repo \<Rightarrow>
             (case repo_CreateTag repo tagName latest w of
                (err, w1) \<Rightarrow>
                  if err \<noteq> None \<and> err \<noteq> Some ErrTagExists
                  then (Some (WrapErr (the err) ''Error creating progress tag with hash %s''), w1)
                  else (None, w1)))"

definition DeleteInProgress :: "'t lib \<Rightarrow> Target \<Rightarrow> string \<Rightarrow> 't world \<Rightarrow> error option \<times> 't world" where
  "DeleteInProgress L target method w =
     (let directory = filepath_Base L (Url target);
          tagName = progressTag method
      in case git_PlainOpen directory w of
           Inl err \<Rightarrow> (Some (WrapErr err ''Error opening repository: %s''), w)
         | Inr repo \<Rightarrow>
             (case repo_DeleteTag repo tagName w of
                (err, w1) \<Rightarrow>
                  if err \<noteq> None \<and> err \<noteq> Some ErrTagNotFound
                  then (Some (WrapErr (the err) ''Error deleting progress tag''), w1)
                  else (None, w1)))"

section \<open>The change selector\<close>

text \<open>\<^verbatim>\<open>strings.HasSuffix\<close>.\<close>

definition HasSuffix :: "string \<Rightarrow> string \<Rightarrow> bool" where
  "HasSuffix s suffix =
     (length s \<ge> length suffix \<and> drop (length s - length suffix) s = suffix)"

primrec checkTag_loop :: "string list \<Rightarrow> string \<Rightarrow> bool" where
  "checkTag_loop [] name = False"
| "checkTag_loop (suffix # rest) name = (if HasSuffix name suffix then True else checkTag_loop rest name)"

text \<open>The pointer \<^verbatim>\<open>tags *[]string\<close> is an option: \<open>None\<close> is the nil pointer.\<close>

definition checkTag :: "string list option \<Rightarrow> string \<Rightarrow> bool" where
  "checkTag tags name = (case tags of None \<Rightarrow> True | Some suffixes \<Rightarrow> checkTag_loop suffixes name)"

text \<open>
  The loop of \<^verbatim>\<open>getFilteredChangeMap\<close> over the changes of the diff. The map it fills is
  keyed by the pointer to each change, so every change that passes gets an entry of its
  own: the map is the list of those entries (its iteration order is not defined in the
  source, and nothing below depends on the order of the list).
\<close>

primrec changeMap_loop ::
  "'t lib \<Rightarrow> string \<Rightarrow> string \<Rightarrow> string list option \<Rightarrow> (string \<Rightarrow> bool) \<Rightarrow> change list \<Rightarrow> (change \<times> string) list" where
  "changeMap_loop L directory targetPath tags g [] = []"
| "changeMap_loop L directory targetPath tags g (c # changes) =
     (if To_Name c \<noteq> [] \<and> checkTag tags (To_Name c) \<and> g (To_Name c)
      then (c, filepath_Join L directory targetPath (To_Name c)) # changeMap_loop L directory targetPath tags g changes
      else if From_Name c \<noteq> [] \<and> checkTag tags (From_Name c) \<and> g (To_Name c)
      then (c, deleteFile) # changeMap_loop L directory targetPath tags g changes
      else changeMap_loop L directory targetPath tags g changes)"

definition getFilteredChangeMap ::
  "'t lib \<Rightarrow> string \<Rightarrow> string \<Rightarrow> 't \<Rightarrow> 't \<Rightarrow> string list option \<Rightarrow> string option \<Rightarrow> error + (change \<times> string) list" where
  "getFilteredChangeMap L directory targetPath currentTree desiredTree tags globPattern =
     (case glob_Compile L (case globPattern of None \<Rightarrow> ''**'' | Some pat \<Rightarrow> pat) of
        Inl err \<Rightarrow> Inl (WrapErr err ''Error compiling glob for pattern %s'')
      | Inr g \<Rightarrow>
          (case tree_Diff L currentTree desiredTree of
             Inl err \<Rightarrow> Inl (WrapErr err ''Error getting diff between current and latest'')
           | Inr changes \<Rightarrow> Inr (changeMap_loop L directory targetPath tags g changes)))"

definition getSubTreeFromHash :: "'t lib \<Rightarrow> string \<Rightarrow> hash \<Rightarrow> string \<Rightarrow> 't world \<Rightarrow> error + 't" where
  "getSubTreeFromHash L directory h subDir w =
     (if IsZero h then Inr (empty_Tree L)
      else
        (case repos w directory of
           None \<Rightarrow> Inl (WrapErr ErrRepositoryNotExists ''Error opening repository: %s'')
         | Some r \<Rightarrow>
             (case repo_commits r h of
                None \<Rightarrow> Inl (WrapErr ErrObjectNotFound ''Error getting commit at hash %s from repo %s'')
              | Some treeHash \<Rightarrow>
                  (case repo_trees r treeHash of
                     None \<Rightarrow> Inl (WrapErr ErrObjectNotFound ''Error getting tree from commit at hash %s from repo %s'')
                   | Some tree \<Rightarrow>
                       (case tree_Tree L tree subDir of
                          Inl err \<Rightarrow> Inl (WrapErr err ''Error getting sub tree at path %s'')
                        | Inr subDirTree \<Rightarrow> Inr subDirTree)))))"

section \<open>The concurrent dispatcher\<close>

text \<open>
  \<^verbatim>\<open>runChangesConcurrent\<close> starts one goroutine per entry of the change map and then
  receives from one unbuffered channel. A goroutine runs the engine method; if that
  fails it sends the wrapped error, and in every case it then sends nil. The function
  receives once per entry and returns the first value that is not nil, or nil after the
  last receive.

  A goroutine is \<open>Running\<close> the engine method, blocked sending its error
  (\<open>SendErr\<close>), blocked sending nil (\<open>SendNil\<close>), or \<open>Finished\<close>. The function is in its
  receive loop with a number of iterations left, or has returned. A send and the receive
  that takes it are one step, since the channel has no buffer.
\<close>

datatype task = Running | SendErr error | SendNil | Finished

datatype receiver = Receiving nat | Returned "error option"

datatype action = Finish nat | Receive nat | Return

definition wrapTaskErr :: "error \<Rightarrow> error" where
  "wrapTaskErr err = WrapErr err ''error running engine method for change from: %s to %s''"

fun step :: "error option list \<Rightarrow> action \<Rightarrow> task list \<times> receiver \<Rightarrow> (task list \<times> receiver) option" where
  "step outs (Finish i) (ts, rc) =
     (if i < length ts \<and> i < length outs \<and> ts ! i = Running
      then Some (ts[i := (case outs ! i of None \<Rightarrow> SendNil | Some err \<Rightarrow> SendErr (wrapTaskErr err))], rc)
      else None)"
| "step outs (Receive i) (ts, Receiving (Suc n)) =
     (if i < length ts
      then (case ts ! i of
              SendErr err \<Rightarrow> Some (ts[i := SendNil], Returned (Some err))
            | SendNil \<Rightarrow> Some (ts[i := Finished], Receiving n)
            | Running \<Rightarrow> None
            | Finished \<Rightarrow> None)
      else None)"
| "step outs (Receive i) (ts, Receiving 0) = None"
| "step outs (Receive i) (ts, Returned r) = None"
| "step outs Return (ts, Receiving 0) = Some (ts, Returned None)"
| "step outs Return (ts, Receiving (Suc n)) = None"
| "step outs Return (ts, Returned r) = None"

text \<open>A schedule is a list of actions; it runs as far as every action is enabled.\<close>

fun run :: "error option list \<Rightarrow> action list \<Rightarrow> task list \<times> receiver \<Rightarrow> (task list \<times> receiver) option" where
  "run outs [] c = Some c"
| "run outs (a # as) c = (case step outs a c of None \<Rightarrow> None | Some c' \<Rightarrow> run outs as c')"

text \<open>All goroutines are started before the first receive.\<close>

definition init :: "error option list \<Rightarrow> task list \<times> receiver" where
  "init outs = (replicate (length outs) Running, Receiving (length outs))"

text \<open>
  What a caller sees of the dispatcher. Every entry of the change map has its engine
  method invoked; the reports of the failed tasks are their wrapped errors; the function
  returns nil when there is none and otherwise the report it receives first, which the
  scheduler chooses (\<open>sched\<close>).
\<close>

definition task_results :: "'t lib \<Rightarrow> SingleMethodObj \<Rightarrow> (change \<times> string) list \<Rightarrow> error option list" where
  "task_results L mo changeMap = map (\<lambda>(c, changePath). EngineMethod L mo changePath c) changeMap"

fun failures :: "error option list \<Rightarrow> error list" where
  "failures [] = []"
| "failures (None # outs) = failures outs"
| "failures (Some err # outs) = wrapTaskErr err # failures outs"

definition first_report :: "nat \<Rightarrow> error option list \<Rightarrow> error option" where
  "first_report k outs =
     (case failures outs of [] \<Rightarrow> None | e # es \<Rightarrow> Some ((e # es) ! (k mod length (e # es))))"

definition runChangesConcurrent ::
  "'t lib \<Rightarrow> SingleMethodObj \<Rightarrow> (change \<times> string) list \<Rightarrow> 't world \<Rightarrow> error option \<times> 't world" where
  "runChangesConcurrent L mo changeMap w =
     (first_report (sched w) (task_results L mo changeMap),
      w\<lparr>trace := trace w @ map (\<lambda>(c, changePath). MethodRun changePath c) changeMap\<rparr>)"

text \<open>
  What holds of the dispatcher in every state it can reach: while it receives, the
  iterations left and the finished goroutines add up to the number of tasks, and only
  tasks that succeeded have got as far as sending nil; a goroutine blocked on an error
  holds the report of a failed task; once nil is returned every goroutine is finished
  and every task succeeded; an error returned is the report of a failed task.
\<close>

fun dispatch_inv :: "error option list \<Rightarrow> task list \<times> receiver \<Rightarrow> bool" where
  "dispatch_inv outs (ts, Receiving n) =
     (length ts = length outs \<and> n + count_list ts Finished = length ts \<and>
      (\<forall>i < length ts. (ts ! i = SendNil \<or> ts ! i = Finished \<longrightarrow> outs ! i = None) \<and>
                        (\<forall>e. ts ! i = SendErr e \<longrightarrow> e \<in> set (failures outs))))"
| "dispatch_inv outs (ts, Returned None) =
     (length ts = length outs \<and> (\<forall>i < length ts. ts ! i = Finished \<and> outs ! i = None))"
| "dispatch_inv outs (ts, Returned (Some e)) = (length ts = length outs \<and> e \<in> set (failures outs) \<and>
      (\<forall>i < length ts. \<forall>e. ts ! i = SendErr e \<longrightarrow> e \<in> set (failures outs)))"

section \<open>Apply and the catch-up entry points\<close>

definition Apply ::
  "'t lib \<Rightarrow> SingleMethodObj \<Rightarrow> hash \<Rightarrow> hash \<Rightarrow> string \<Rightarrow> string list option \<Rightarrow> string option \<Rightarrow> 't world
   \<Rightarrow> error option \<times> 't world" where
  "Apply L mo currentState desiredState targetPath tags globPattern w =
     (if IsZero desiredState then (Some (Msg ''Cannot run Apply if desired state is empty''), w)
      else
        (let directory = filepath_Base L (Url (Target mo))
         in case getSubTreeFromHash L directory currentState targetPath w of
              Inl err \<Rightarrow> (Some (WrapErr err ''Error getting sub tree from hash %s from repo %s''), w)
            | Inr currentTree \<Rightarrow>
                (case getSubTreeFromHash L directory desiredState targetPath w of
                   Inl err \<Rightarrow> (Some (WrapErr err ''Error getting sub tree from hash %s from repo %s''), w)
                 | Inr desiredTree \<Rightarrow>
                     (case getFilteredChangeMap L directory targetPath currentTree desiredTree tags globPattern of
                        Inl err \<Rightarrow> (Some (WrapErr err ''Error getting filtered change map from %s to %s''), w)
                      | Inr changeMap \<Rightarrow>
                          (case runChangesConcurrent L mo changeMap w of
                             (Some err, w1) \<Rightarrow>
                               (Some (WrapErr err ''Error applying change from %s to %s for path %s in %s''), w1)
                           | (None, w1) \<Rightarrow> (None, w1))))))"

definition CatchUpCurrent ::
  "'t lib \<Rightarrow> SingleMethodObj \<Rightarrow> hash \<Rightarrow> string \<Rightarrow> string list option \<Rightarrow> string option \<Rightarrow> 't world
   \<Rightarrow> error option \<times> 't world" where
  "CatchUpCurrent L mo current targetPath tag globPattern w =
     (case Apply L mo zeroHash current targetPath tag globPattern w of
        (Some err, w1) \<Rightarrow> (Some (WrapErr err ''Failed to apply changes''), w1)
      | (None, w1) \<Rightarrow> (None, w1))"

definition CatchUpProgress ::
  "'t lib \<Rightarrow> SingleMethodObj \<Rightarrow> hash \<Rightarrow> hash \<Rightarrow> string \<Rightarrow> string list option \<Rightarrow> string option \<Rightarrow> 't world
   \<Rightarrow> error option \<times> 't world" where
  "CatchUpProgress L mo current progress targetPath tag globPattern w =
     (if progress \<noteq> current
      then
        (case Apply L mo current progress targetPath tag globPattern w of
           (Some err, w1) \<Rightarrow>
             (case DeleteInProgress L (Target mo) (Method mo) w1 of
                (Some err2, w2) \<Rightarrow> (Some (WrapErr err2 ''Failed to delete progress''), w2)
              | (None, w2) \<Rightarrow> (Some (WrapErr err ''Failed to apply from current to in progress''), w2))
         | (None, w1) \<Rightarrow>
             (case UpdateCurrent L (Target mo) (Method mo) progress w1 of
                (Some err, w2) \<Rightarrow> (Some (WrapErr err ''Failed to update current to progress''), w2)
              | (None, w2) \<Rightarrow>
                  (case DeleteInProgress L (Target mo) (Method mo) w2 of
                     (Some err, w3) \<Rightarrow> (Some (WrapErr err ''Failed to delete progress''), w3)
                   | (None, w3) \<Rightarrow> (None, w3))))
      else
        (case DeleteInProgress L (Target mo) (Method mo) w of
           (Some err, w3) \<Rightarrow> (Some (WrapErr err ''Failed to delete progress''), w3)
         | (None, w3) \<Rightarrow> (None, w3)))"

definition CatchUpLatest ::
  "'t lib \<Rightarrow> SingleMethodObj \<Rightarrow> hash \<Rightarrow> hash \<Rightarrow> string \<Rightarrow> string list option \<Rightarrow> string option \<Rightarrow> 't world
   \<Rightarrow> error option \<times> 't world" where
  "CatchUpLatest L mo current latest targetPath tag globPattern w =
     (case CreateInProgress L (Target mo) (Method mo) latest w of
        (Some err, w1) \<Rightarrow> (Some (WrapErr err ''Failed to create progress tag''), w1)
      | (None, w1) \<Rightarrow>
          (case Apply L mo current latest targetPath tag globPattern w1 of
             (Some err, w2) \<Rightarrow>
               (case DeleteInProgress L (Target mo) (Method mo) w2 of
                  (Some err2, w3) \<Rightarrow> (Some (WrapErr err2 ''Error deleting progress tag''), w3)
                | (None, w3) \<Rightarrow> (Some (WrapErr err ''Failed to apply changes''), w3))
           | (None, w2) \<Rightarrow>
               (case UpdateCurrent L (Target mo) (Method mo) latest w2 of
                  (Some err, w3) \<Rightarrow> (Some (WrapErr err ''Error updating current tag''), w3)
                | (None, w3) \<Rightarrow>
                    (case DeleteInProgress L (Target mo) (Method mo) w3 of
                       (Some err, w4) \<Rightarrow> (Some (WrapErr err ''Error deleting progress tag''), w4)
                     | (None, w4) \<Rightarrow> (None, w4)))))"

section \<open>Reading the trace\<close>

text \<open>The engine method invocations of a trace, in order: resolved path and change.\<close>

fun dispatched :: "event list \<Rightarrow> (string \<times> change) list" where
  "dispatched [] = []"
| "dispatched (MethodRun changePath c # es) = (changePath, c) # dispatched es"
| "dispatched (TagCreated d n h # es) = dispatched es"
| "dispatched (TagDeleted d n # es) = dispatched es"

section \<open>Concrete collaborators for the examples\<close>

text \<open>
  The theorems below hold for every choice of the collaborators. To run the model on
  concrete inputs, here is one choice: a tree is the list of its files (path and blob
  hash); the subtree at a directory keeps the files below it; the diff lists the
  deletions, then the insertions and the modifications, with no rename detection, as
  \<^verbatim>\<open>Tree.Diff\<close> does; the glob compiler covers the patterns without metacharacters
  (a literal pattern matches itself only, the empty pattern the empty string only) and
  \<^verbatim>\<open>**\<close>, which matches everything; the engine method fails on the paths it is told to
  fail on.
\<close>

definition demo_Base :: "string \<Rightarrow> string" where
  "demo_Base p = rev (takeWhile (\<lambda>c. c \<noteq> CHR ''/'') (rev p))"

definition demo_Join :: "string \<Rightarrow> string \<Rightarrow> string \<Rightarrow> string" where
  "demo_Join a b c = a @ ''/'' @ b @ ''/'' @ c"

definition demo_Tree :: "(string \<times> hash) list \<Rightarrow> string \<Rightarrow> error + (string \<times> hash) list" where
  "demo_Tree t subDir =
     (let below = filter (\<lambda>(n, h). take (length subDir + 1) n = subDir @ ''/'') t
      in if below = [] then Inl ErrDirectoryNotFound
         else Inr (map (\<lambda>(n, h). (drop (length subDir + 1) n, h)) below))"

definition demo_Diff :: "(string \<times> hash) list \<Rightarrow> (string \<times> hash) list \<Rightarrow> error + change list" where
  "demo_Diff a b =
     Inr (map (\<lambda>(n, h). \<lparr>From_Name = n, To_Name = []\<rparr>) (filter (\<lambda>(n, h). map_of b n = None) a) @
          map (\<lambda>(n, h). \<lparr>From_Name = (if map_of a n = None then [] else n), To_Name = n\<rparr>)
            (filter (\<lambda>(n, h). map_of a n \<noteq> Some h) b))"

definition demo_Compile :: "string \<Rightarrow> error + (string \<Rightarrow> bool)" where
  "demo_Compile pat =
     (if pat = ''**'' then Inr (\<lambda>s. True)
      else if list_ex (\<lambda>c. List.member ''*?[{'' c) pat then Inl (Msg ''pattern outside the fragment'')
      else Inr (\<lambda>s. s = pat))"

definition demo_lib :: "string list \<Rightarrow> (string \<times> hash) list lib" where
  "demo_lib failing =
     \<lparr>filepath_Base = demo_Base, filepath_Join = demo_Join, empty_Tree = [],
      tree_Tree = demo_Tree, tree_Diff = demo_Diff, glob_Compile = demo_Compile,
      EngineMethod = (\<lambda>mo changePath c. if List.member failing changePath then Some (Msg ''apply failed'') else None)\<rparr>"

definition demo_target :: Target where
  "demo_target = \<lparr>Url = ''https://example.org/repo'', Branch = ''main'', Name = ''units''\<rparr>"

definition demo_mo :: SingleMethodObj where
  "demo_mo = \<lparr>Target = demo_target, Method = ''systemd''\<rparr>"

text \<open>
  A clone at \<^verbatim>\<open>repo\<close> with two commits: commit 1 has \<^verbatim>\<open>units/a.service\<close>, commit 2 changes
  it and adds \<^verbatim>\<open>units/b.service\<close>.
\<close>

definition demo_repo :: "(string \<rightharpoonup> hash) \<Rightarrow> (string \<times> hash) list repository" where
  "demo_repo tags =
     \<lparr>repo_tags = tags,
      repo_commits = [1 \<mapsto> 11, 2 \<mapsto> 12],
      repo_trees = [11 \<mapsto> [(''units/a.service'', 101)],
                    12 \<mapsto> [(''units/a.service'', 102), (''units/b.service'', 103)]]\<rparr>"

definition demo_world :: "(string \<rightharpoonup> hash) \<Rightarrow> (string \<times> hash) list world" where
  "demo_world tags = \<lparr>repos = [''repo'' \<mapsto> demo_repo tags], sched = 0, trace = []\<rparr>"

section \<open>Effects of the tag operations and of Apply\<close>

lemma dispatched_append: "dispatched (xs @ ys) = dispatched xs @ dispatched ys"
  by (induction xs rule: dispatched.induct) simp_all

lemma dispatched_runs:
  "dispatched (map (\<lambda>(c, changePath). MethodRun changePath c) cm) = map (\<lambda>(c, changePath). (changePath, c)) cm"
  by (induction cm) auto

lemma tag_names_differ: "currentTag m \<noteq> progressTag m'"
  by (simp add: currentTag_def progressTag_def)

lemma runChanges_world:
  "runChangesConcurrent L mo cm w = (r, w1) \<Longrightarrow>
     repos w1 = repos w \<and> sched w1 = sched w \<and>
     trace w1 = trace w @ map (\<lambda>(c, changePath). MethodRun changePath c) cm"
  by (auto simp: runChangesConcurrent_def)

lemma Apply_world:
  assumes "Apply L mo cur des p tags g w = (r, w1)"
  shows "repos w1 = repos w" and "sched w1 = sched w" and "\<exists>cm. trace w1 = trace w @ map (\<lambda>(c, changePath). MethodRun changePath c) cm"
  using assms
  by (auto simp: Apply_def Let_def split: if_splits sum.splits prod.splits option.splits dest!: runChanges_world)

lemma Apply_tag_of: "Apply L mo cur des p tags g w = (r, w1) \<Longrightarrow> tag_of w1 d n = tag_of w d n"
  by (simp add: tag_of_def Apply_world(1))

lemma getSubTree_nonzero_repo:
  "getSubTreeFromHash L d h p w = Inr t \<Longrightarrow> h \<noteq> zeroHash \<Longrightarrow> repos w d \<noteq> None"
  by (auto simp: getSubTreeFromHash_def IsZero_def split: option.splits)

lemma Apply_ok_repo:
  assumes "Apply L mo cur des p tags g w = (None, w1)"
  shows "repos w (filepath_Base L (Url (Target mo))) \<noteq> None"
  using assms
  by (auto simp: Apply_def Let_def IsZero_def split: if_splits sum.splits prod.splits option.splits
      dest: getSubTree_nonzero_repo)

lemma DeleteInProgress_spec:
  assumes "DeleteInProgress L t m w = (r, w')"
  shows "tag_of w' (filepath_Base L (Url t)) (progressTag m) = None"
    and "n \<noteq> progressTag m \<Longrightarrow> tag_of w' d n = tag_of w d n"
    and "(r = None) = (repos w (filepath_Base L (Url t)) \<noteq> None)"
    and "(repos w' d = None) = (repos w d = None)"
    and "dispatched (trace w') = dispatched (trace w)"
    and "sched w' = sched w"
  using assms
  by (auto simp: DeleteInProgress_def Let_def git_PlainOpen_def repo_DeleteTag_def tag_of_def dispatched_append
      split: option.splits if_splits)

lemma UpdateCurrent_spec:
  assumes "UpdateCurrent L t m c w = (r, w')"
  shows "repos w (filepath_Base L (Url t)) \<noteq> None \<Longrightarrow> tag_of w' (filepath_Base L (Url t)) (currentTag m) = Some c"
    and "n \<noteq> currentTag m \<Longrightarrow> tag_of w' d n = tag_of w d n"
    and "(r = None) = (repos w (filepath_Base L (Url t)) \<noteq> None)"
    and "(repos w' d = None) = (repos w d = None)"
    and "dispatched (trace w') = dispatched (trace w)"
    and "sched w' = sched w"
  using assms
  by (auto simp: UpdateCurrent_def Let_def git_PlainOpen_def repo_DeleteTag_def repo_CreateTag_def tag_of_def dispatched_append
      split: option.splits if_splits)

lemma CreateInProgress_spec:
  assumes "CreateInProgress L t m c w = (r, w')"
  shows "repos w (filepath_Base L (Url t)) \<noteq> None \<Longrightarrow>
           tag_of w' (filepath_Base L (Url t)) (progressTag m) =
             (case tag_of w (filepath_Base L (Url t)) (progressTag m) of None \<Rightarrow> Some c | Some old \<Rightarrow> Some old)"
    and "n \<noteq> progressTag m \<Longrightarrow> tag_of w' d n = tag_of w d n"
    and "(r = None) = (repos w (filepath_Base L (Url t)) \<noteq> None)"
    and "(repos w' d = None) = (repos w d = None)"
    and "repos w (filepath_Base L (Url t)) = None \<Longrightarrow> w' = w"
    and "trace w' = trace w @
           (if repos w (filepath_Base L (Url t)) \<noteq> None \<and> tag_of w (filepath_Base L (Url t)) (progressTag m) = None
            then [TagCreated (filepath_Base L (Url t)) (progressTag m) c] else [])"
    and "sched w' = sched w"
  using assms
  by (auto simp: CreateInProgress_def Let_def git_PlainOpen_def repo_CreateTag_def tag_of_def
      split: option.splits if_splits)

text \<open>Unfolding sets for running the model on the concrete collaborators.\<close>

lemmas demo_defs = demo_lib_def demo_mo_def demo_target_def demo_world_def demo_repo_def
  demo_Base_def demo_Join_def demo_Tree_def demo_Diff_def demo_Compile_def

lemmas engine_defs = Apply_def getSubTreeFromHash_def getFilteredChangeMap_def runChangesConcurrent_def
  first_report_def task_results_def wrapTaskErr_def checkTag_def HasSuffix_def IsZero_def zeroHash_def
  deleteFile_def Let_def

lemma demo_Apply_ok:
  "fst (Apply (demo_lib []) demo_mo 1 2 ''units'' None None (demo_world [''current-systemd'' \<mapsto> 1, ''progress-systemd'' \<mapsto> 2])) = None"
  by (simp add: demo_defs engine_defs)

lemma demo_Apply_bad:
  "fst (Apply (demo_lib [''repo/units/b.service'']) demo_mo 1 2 ''units'' None None
         (demo_world [''current-systemd'' \<mapsto> 1, ''progress-systemd'' \<mapsto> 2])) =
   Some (WrapErr (WrapErr (Msg ''apply failed'') ''error running engine method for change from: %s to %s'')
      ''Error applying change from %s to %s for path %s in %s'')"
  by (simp add: demo_defs engine_defs)

section \<open>The catch-up coordinator\<close>

text \<open>
  Claim C1. \<^verbatim>\<open>CatchUpProgress\<close>, for every target, method and hashes \<open>current\<close> and
  \<open>progress\<close>. When \<open>progress \<noteq> current\<close> it applies the changeset from \<open>current\<close> to
  \<open>progress\<close> (the function is not given \<open>latest\<close>), and the engine method invocations of
  the whole call are those of that apply. If that apply succeeds, the call succeeds, the
  current tag points at \<open>progress\<close> and the progress tag is gone. If it fails, an error is
  returned (the wrapped error of the apply whenever the clone can be opened), the
  progress tag is gone and the current tag is what it was. Whenever the call returns
  successfully the progress tag is gone, also when \<open>progress = current\<close>, where nothing
  is applied.
\<close>

theorem CatchUpProgress_replays_interrupted:
  assumes run: "CatchUpProgress L mo current progress targetPath tag globPattern w = (r, w')"
  shows "(r = None \<longrightarrow> tag_of w' (filepath_Base L (Url (Target mo))) (progressTag (Method mo)) = None) \<and>
    (progress = current \<longrightarrow> dispatched (trace w') = dispatched (trace w)) \<and>
    (progress \<noteq> current \<longrightarrow>
      (case Apply L mo current progress targetPath tag globPattern w of
         (None, w1) \<Rightarrow>
           r = None \<and>
           tag_of w' (filepath_Base L (Url (Target mo))) (currentTag (Method mo)) = Some progress \<and>
           tag_of w' (filepath_Base L (Url (Target mo))) (progressTag (Method mo)) = None \<and>
           dispatched (trace w') = dispatched (trace w1)
       | (Some err, w1) \<Rightarrow>
           r \<noteq> None \<and>
           (repos w (filepath_Base L (Url (Target mo))) \<noteq> None \<longrightarrow>
              r = Some (WrapErr err ''Failed to apply from current to in progress'')) \<and>
           tag_of w' (filepath_Base L (Url (Target mo))) (progressTag (Method mo)) = None \<and>
           tag_of w' (filepath_Base L (Url (Target mo))) (currentTag (Method mo)) =
             tag_of w (filepath_Base L (Url (Target mo))) (currentTag (Method mo)) \<and>
           dispatched (trace w') = dispatched (trace w1)))"
proof (cases "progress = current")
  case True
  with run obtain r0 where del: "DeleteInProgress L (Target mo) (Method mo) w = (r0, w')"
    by (auto simp: CatchUpProgress_def split: prod.splits option.splits)
  from True DeleteInProgress_spec(1)[OF del] DeleteInProgress_spec(5)[OF del] show ?thesis
    by simp
next
  case False
  obtain a w1 where ap: "Apply L mo current progress targetPath tag globPattern w = (a, w1)"
    by (cases "Apply L mo current progress targetPath tag globPattern w")
  show ?thesis
  proof (cases a)
    case None
    note ok = ap[unfolded None]
    have repo1: "repos w1 (filepath_Base L (Url (Target mo))) \<noteq> None"
      using Apply_ok_repo[OF ok] Apply_world(1)[OF ok] by simp
    obtain u w2 where up: "UpdateCurrent L (Target mo) (Method mo) progress w1 = (u, w2)"
      by (cases "UpdateCurrent L (Target mo) (Method mo) progress w1")
    have u: "u = None" using UpdateCurrent_spec(3)[OF up] repo1 by simp
    obtain d w3 where del: "DeleteInProgress L (Target mo) (Method mo) w2 = (d, w3)"
      by (cases "DeleteInProgress L (Target mo) (Method mo) w2")
    have repo2: "repos w2 (filepath_Base L (Url (Target mo))) \<noteq> None"
      using UpdateCurrent_spec(4)[OF up] repo1 by simp
    have d: "d = None" using DeleteInProgress_spec(3)[OF del] repo2 by simp
    have res: "r = None" "w' = w3"
      using run False ok up del u d by (simp_all add: CatchUpProgress_def)
    have cur: "tag_of w3 (filepath_Base L (Url (Target mo))) (currentTag (Method mo)) = Some progress"
      using DeleteInProgress_spec(2)[OF del tag_names_differ] UpdateCurrent_spec(1)[OF up repo1] by simp
    have tr: "dispatched (trace w3) = dispatched (trace w1)"
      using DeleteInProgress_spec(5)[OF del] UpdateCurrent_spec(5)[OF up] by simp
    show ?thesis
      using False res cur tr DeleteInProgress_spec(1)[OF del] by (simp add: ok)
  next
    case (Some err)
    note bad = ap[unfolded Some]
    obtain d w2 where del: "DeleteInProgress L (Target mo) (Method mo) w1 = (d, w2)"
      by (cases "DeleteInProgress L (Target mo) (Method mo) w1")
    have res: "w' = w2" "r = (case d of None \<Rightarrow> Some (WrapErr err ''Failed to apply from current to in progress'')
                                  | Some err2 \<Rightarrow> Some (WrapErr err2 ''Failed to delete progress''))"
      using run False bad del by (auto simp: CatchUpProgress_def split: option.splits)
    have d: "(d = None) = (repos w (filepath_Base L (Url (Target mo))) \<noteq> None)"
      using DeleteInProgress_spec(3)[OF del] Apply_world(1)[OF bad] by simp
    have cur: "tag_of w2 (filepath_Base L (Url (Target mo))) (currentTag (Method mo)) =
               tag_of w (filepath_Base L (Url (Target mo))) (currentTag (Method mo))"
      using DeleteInProgress_spec(2)[OF del tag_names_differ] Apply_tag_of[OF bad] by simp
    show ?thesis
      using False res d cur DeleteInProgress_spec(1)[OF del] DeleteInProgress_spec(5)[OF del]
      by (auto simp: bad split: option.splits)
  qed
qed

theorem CatchUpProgress_replays_interrupted_witness:
  "fst (CatchUpProgress (demo_lib []) demo_mo 1 2 ''units'' None None
          (demo_world [''current-systemd'' \<mapsto> 1, ''progress-systemd'' \<mapsto> 2])) = None \<and>
   tag_of (snd (CatchUpProgress (demo_lib []) demo_mo 1 2 ''units'' None None
          (demo_world [''current-systemd'' \<mapsto> 1, ''progress-systemd'' \<mapsto> 2]))) ''repo'' ''current-systemd'' = Some 2 \<and>
   tag_of (snd (CatchUpProgress (demo_lib []) demo_mo 1 2 ''units'' None None
          (demo_world [''current-systemd'' \<mapsto> 1, ''progress-systemd'' \<mapsto> 2]))) ''repo'' ''progress-systemd'' = None \<and>
   fst (CatchUpProgress (demo_lib [''repo/units/b.service'']) demo_mo 1 2 ''units'' None None
          (demo_world [''current-systemd'' \<mapsto> 1, ''progress-systemd'' \<mapsto> 2])) \<noteq> None \<and>
   tag_of (snd (CatchUpProgress (demo_lib [''repo/units/b.service'']) demo_mo 1 2 ''units'' None None
          (demo_world [''current-systemd'' \<mapsto> 1, ''progress-systemd'' \<mapsto> 2]))) ''repo'' ''current-systemd'' = Some 1 \<and>
   tag_of (snd (CatchUpProgress (demo_lib [''repo/units/b.service'']) demo_mo 1 2 ''units'' None None
          (demo_world [''current-systemd'' \<mapsto> 1, ''progress-systemd'' \<mapsto> 2]))) ''repo'' ''progress-systemd'' = None"
proof -
  let ?w = "demo_world [''current-systemd'' \<mapsto> 1, ''progress-systemd'' \<mapsto> (2::hash)]"
  let ?ok = "CatchUpProgress (demo_lib []) demo_mo 1 2 ''units'' None None ?w"
  let ?bad = "CatchUpProgress (demo_lib [''repo/units/b.service'']) demo_mo 1 2 ''units'' None None ?w"
  have ne: "(2::hash) \<noteq> 1" by simp
  have base: "filepath_Base (demo_lib f) (Url (Target demo_mo)) = ''repo''" for f
    by (simp add: demo_defs)
  have names: "currentTag (Method demo_mo) = ''current-systemd''" "progressTag (Method demo_mo) = ''progress-systemd''"
    by (simp_all add: demo_defs currentTag_def progressTag_def)
  have cur: "tag_of ?w ''repo'' ''current-systemd'' = Some 1"
    by (simp add: tag_of_def demo_defs)
  obtain w1 where a1: "Apply (demo_lib []) demo_mo 1 2 ''units'' None None ?w = (None, w1)"
    using demo_Apply_ok by (metis prod.collapse)
  obtain w2 where a2: "Apply (demo_lib [''repo/units/b.service'']) demo_mo 1 2 ''units'' None None ?w =
       (Some (WrapErr (WrapErr (Msg ''apply failed'') ''error running engine method for change from: %s to %s'')
          ''Error applying change from %s to %s for path %s in %s''), w2)"
    using demo_Apply_bad by (metis prod.collapse)
  have "CatchUpProgress (demo_lib []) demo_mo 1 2 ''units'' None None ?w = (fst ?ok, snd ?ok)"
    by simp
  from CatchUpProgress_replays_interrupted[OF this] ne
  have ok: "fst ?ok = None \<and> tag_of (snd ?ok) ''repo'' ''current-systemd'' = Some 2 \<and>
            tag_of (snd ?ok) ''repo'' ''progress-systemd'' = None"
    by (simp add: a1 base names)
  have "CatchUpProgress (demo_lib [''repo/units/b.service'']) demo_mo 1 2 ''units'' None None ?w = (fst ?bad, snd ?bad)"
    by simp
  from CatchUpProgress_replays_interrupted[OF this] ne
  have bad: "fst ?bad \<noteq> None \<and> tag_of (snd ?bad) ''repo'' ''current-systemd'' = Some 1 \<and>
            tag_of (snd ?bad) ''repo'' ''progress-systemd'' = None"
    by (simp add: a2 base names cur)
  from ok bad show ?thesis by simp
qed

lemma trace_grows:
  "DeleteInProgress L t m w = (r, w') \<Longrightarrow> \<exists>rest. trace w' = trace w @ rest"
  "UpdateCurrent L t m c w = (r, w') \<Longrightarrow> \<exists>rest. trace w' = trace w @ rest"
  by (auto simp: DeleteInProgress_def UpdateCurrent_def Let_def git_PlainOpen_def repo_DeleteTag_def repo_CreateTag_def
      split: option.splits if_splits)

lemma demo_base: "filepath_Base (demo_lib f) (Url (Target demo_mo)) = ''repo''"
  "filepath_Base (demo_lib f) (Url demo_target) = ''repo''"
  by (simp_all add: demo_defs)

lemma demo_names:
  "currentTag (Method demo_mo) = ''current-systemd''" "progressTag (Method demo_mo) = ''progress-systemd''"
  by (simp_all add: demo_defs currentTag_def progressTag_def)

text \<open>
  Claim C2, as amended. \<^verbatim>\<open>CatchUpLatest\<close> first calls \<^verbatim>\<open>CreateInProgress\<close> with \<open>latest\<close>,
  before any change is computed or dispatched. When the clone cannot be opened the call
  fails and nothing happens. Otherwise: when no progress tag exists, the progress tag is
  created pointing at \<open>latest\<close>, and this is the first effect of the call; when a
  progress tag exists already it is left pointing where it did. Then the changeset from
  \<open>current\<close> to \<open>latest\<close> is applied. If the apply succeeds, the call succeeds, the
  current tag points at \<open>latest\<close> and the progress tag is gone. If the apply fails, its
  error is returned wrapped, the progress tag is gone and the current tag is what it
  was. The engine method invocations of the call are those of that apply.
\<close>

theorem CatchUpLatest_write_ahead:
  assumes run: "CatchUpLatest L mo current latest targetPath tag globPattern w = (r, w')"
  shows "(repos w (filepath_Base L (Url (Target mo))) = None \<longrightarrow> r \<noteq> None \<and> w' = w) \<and>
    (repos w (filepath_Base L (Url (Target mo))) \<noteq> None \<longrightarrow>
      tag_of (snd (CreateInProgress L (Target mo) (Method mo) latest w))
          (filepath_Base L (Url (Target mo))) (progressTag (Method mo)) =
        (case tag_of w (filepath_Base L (Url (Target mo))) (progressTag (Method mo)) of
           None \<Rightarrow> Some latest | Some old \<Rightarrow> Some old) \<and>
      (tag_of w (filepath_Base L (Url (Target mo))) (progressTag (Method mo)) = None \<longrightarrow>
         (\<exists>rest. trace w' =
            trace w @ TagCreated (filepath_Base L (Url (Target mo))) (progressTag (Method mo)) latest # rest)) \<and>
      (case Apply L mo current latest targetPath tag globPattern
              (snd (CreateInProgress L (Target mo) (Method mo) latest w)) of
         (None, w2) \<Rightarrow>
           r = None \<and>
           tag_of w' (filepath_Base L (Url (Target mo))) (currentTag (Method mo)) = Some latest \<and>
           tag_of w' (filepath_Base L (Url (Target mo))) (progressTag (Method mo)) = None \<and>
           dispatched (trace w') = dispatched (trace w2)
       | (Some err, w2) \<Rightarrow>
           r = Some (WrapErr err ''Failed to apply changes'') \<and>
           tag_of w' (filepath_Base L (Url (Target mo))) (progressTag (Method mo)) = None \<and>
           tag_of w' (filepath_Base L (Url (Target mo))) (currentTag (Method mo)) =
             tag_of w (filepath_Base L (Url (Target mo))) (currentTag (Method mo)) \<and>
           dispatched (trace w') = dispatched (trace w2)))"
proof (cases "repos w (filepath_Base L (Url (Target mo))) = None")
  case True
  then show ?thesis
    using run by (auto simp: CatchUpLatest_def CreateInProgress_def git_PlainOpen_def Let_def)
next
  case False
  let ?d = "filepath_Base L (Url (Target mo))"
  obtain c w1 where cr: "CreateInProgress L (Target mo) (Method mo) latest w = (c, w1)"
    by (cases "CreateInProgress L (Target mo) (Method mo) latest w")
  have c: "c = None" using CreateInProgress_spec(3)[OF cr] False by simp
  have repo1: "repos w1 ?d \<noteq> None" using CreateInProgress_spec(4)[OF cr] False by simp
  have tr1: "trace w1 = trace w @ (if tag_of w ?d (progressTag (Method mo)) = None
                 then [TagCreated ?d (progressTag (Method mo)) latest] else [])"
    using CreateInProgress_spec(6)[OF cr] False by simp
  have cur1: "tag_of w1 ?d (currentTag (Method mo)) = tag_of w ?d (currentTag (Method mo))"
    using CreateInProgress_spec(2)[OF cr tag_names_differ] by simp
  obtain a w2 where ap: "Apply L mo current latest targetPath tag globPattern w1 = (a, w2)"
    by (cases "Apply L mo current latest targetPath tag globPattern w1")
  have repo2: "repos w2 ?d \<noteq> None" using Apply_world(1)[OF ap] repo1 by simp
  obtain rest2 where tr2: "trace w2 = trace w1 @ rest2" using Apply_world(3)[OF ap] by blast
  show ?thesis
  proof (cases a)
    case None
    note ok = ap[unfolded None]
    obtain u w3 where up: "UpdateCurrent L (Target mo) (Method mo) latest w2 = (u, w3)"
      by (cases "UpdateCurrent L (Target mo) (Method mo) latest w2")
    have u: "u = None" using UpdateCurrent_spec(3)[OF up] repo2 by simp
    have repo3: "repos w3 ?d \<noteq> None" using UpdateCurrent_spec(4)[OF up] repo2 by simp
    obtain d w4 where del: "DeleteInProgress L (Target mo) (Method mo) w3 = (d, w4)"
      by (cases "DeleteInProgress L (Target mo) (Method mo) w3")
    have d: "d = None" using DeleteInProgress_spec(3)[OF del] repo3 by simp
    have res: "r = None" "w' = w4"
      using run cr c ok up u del d by (simp_all add: CatchUpLatest_def)
    have cur: "tag_of w4 ?d (currentTag (Method mo)) = Some latest"
      using DeleteInProgress_spec(2)[OF del tag_names_differ] UpdateCurrent_spec(1)[OF up repo2] by simp
    have disp: "dispatched (trace w4) = dispatched (trace w2)"
      using DeleteInProgress_spec(5)[OF del] UpdateCurrent_spec(5)[OF up] by simp
    obtain rest3 rest4 where "trace w3 = trace w2 @ rest3" "trace w4 = trace w3 @ rest4"
      using trace_grows(2)[OF up] trace_grows(1)[OF del] by blast
    then have tr4: "trace w4 = trace w1 @ (rest2 @ rest3 @ rest4)" using tr2 by simp
    have P1: "tag_of (snd (CreateInProgress L (Target mo) (Method mo) latest w)) ?d (progressTag (Method mo)) =
        (case tag_of w ?d (progressTag (Method mo)) of None \<Rightarrow> Some latest | Some old \<Rightarrow> Some old)"
      using CreateInProgress_spec(1)[OF cr False] by (simp add: cr)
    have P2: "tag_of w ?d (progressTag (Method mo)) = None \<longrightarrow>
         (\<exists>rest. trace w' = trace w @ TagCreated ?d (progressTag (Method mo)) latest # rest)"
      using tr4 tr1 res by simp
    have P3: "(case Apply L mo current latest targetPath tag globPattern
              (snd (CreateInProgress L (Target mo) (Method mo) latest w)) of
         (None, w2) \<Rightarrow>
           r = None \<and>
           tag_of w' ?d (currentTag (Method mo)) = Some latest \<and>
           tag_of w' ?d (progressTag (Method mo)) = None \<and>
           dispatched (trace w') = dispatched (trace w2)
       | (Some err, w2) \<Rightarrow>
           r = Some (WrapErr err ''Failed to apply changes'') \<and>
           tag_of w' ?d (progressTag (Method mo)) = None \<and>
           tag_of w' ?d (currentTag (Method mo)) = tag_of w ?d (currentTag (Method mo)) \<and>
           dispatched (trace w') = dispatched (trace w2))"
      using res cur disp DeleteInProgress_spec(1)[OF del] by (simp add: cr ok)
    show ?thesis using False P1 P2 P3 by blast
  next
    case (Some err)
    note bad = ap[unfolded Some]
    obtain d w3 where del: "DeleteInProgress L (Target mo) (Method mo) w2 = (d, w3)"
      by (cases "DeleteInProgress L (Target mo) (Method mo) w2")
    have d: "d = None" using DeleteInProgress_spec(3)[OF del] repo2 by simp
    have res: "r = Some (WrapErr err ''Failed to apply changes'')" "w' = w3"
      using run cr c bad del d by (simp_all add: CatchUpLatest_def)
    have cur: "tag_of w3 ?d (currentTag (Method mo)) = tag_of w ?d (currentTag (Method mo))"
      using DeleteInProgress_spec(2)[OF del tag_names_differ] Apply_tag_of[OF bad] cur1 by simp
    obtain rest3 where "trace w3 = trace w2 @ rest3" using trace_grows(1)[OF del] by blast
    then have tr3: "trace w3 = trace w1 @ (rest2 @ rest3)" using tr2 by simp
    have P1: "tag_of (snd (CreateInProgress L (Target mo) (Method mo) latest w)) ?d (progressTag (Method mo)) =
        (case tag_of w ?d (progressTag (Method mo)) of None \<Rightarrow> Some latest | Some old \<Rightarrow> Some old)"
      using CreateInProgress_spec(1)[OF cr False] by (simp add: cr)
    have P2: "tag_of w ?d (progressTag (Method mo)) = None \<longrightarrow>
         (\<exists>rest. trace w' = trace w @ TagCreated ?d (progressTag (Method mo)) latest # rest)"
      using tr3 tr1 res by simp
    have P3: "(case Apply L mo current latest targetPath tag globPattern
              (snd (CreateInProgress L (Target mo) (Method mo) latest w)) of
         (None, w2) \<Rightarrow>
           r = None \<and>
           tag_of w' ?d (currentTag (Method mo)) = Some latest \<and>
           tag_of w' ?d (progressTag (Method mo)) = None \<and>
           dispatched (trace w') = dispatched (trace w2)
       | (Some err, w2) \<Rightarrow>
           r = Some (WrapErr err ''Failed to apply changes'') \<and>
           tag_of w' ?d (progressTag (Method mo)) = None \<and>
           tag_of w' ?d (currentTag (Method mo)) = tag_of w ?d (currentTag (Method mo)) \<and>
           dispatched (trace w') = dispatched (trace w2))"
      using res cur DeleteInProgress_spec(1)[OF del] DeleteInProgress_spec(5)[OF del] by (simp add: cr bad)
    show ?thesis using False P1 P2 P3 by blast
  qed
qed

theorem CatchUpLatest_write_ahead_witness:
  "fst (CatchUpLatest (demo_lib []) demo_mo 1 2 ''units'' None None (demo_world [''current-systemd'' \<mapsto> 1])) = None \<and>
   tag_of (snd (CatchUpLatest (demo_lib []) demo_mo 1 2 ''units'' None None (demo_world [''current-systemd'' \<mapsto> 1])))
     ''repo'' ''current-systemd'' = Some 2 \<and>
   tag_of (snd (CatchUpLatest (demo_lib []) demo_mo 1 2 ''units'' None None (demo_world [''current-systemd'' \<mapsto> 1])))
     ''repo'' ''progress-systemd'' = None \<and>
   (\<exists>rest. trace (snd (CatchUpLatest (demo_lib []) demo_mo 1 2 ''units'' None None (demo_world [''current-systemd'' \<mapsto> 1]))) =
      TagCreated ''repo'' ''progress-systemd'' 2 # rest)"
proof -
  let ?w = "demo_world [''current-systemd'' \<mapsto> (1::hash)]"
  let ?run = "CatchUpLatest (demo_lib []) demo_mo 1 2 ''units'' None None ?w"
  have repo: "repos ?w ''repo'' \<noteq> None" by (simp add: demo_defs)
  have absent: "tag_of ?w ''repo'' ''progress-systemd'' = None" by (simp add: tag_of_def demo_defs)
  have tr: "trace ?w = []" by (simp add: demo_defs)
  have "fst (Apply (demo_lib []) demo_mo 1 2 ''units'' None None
          (snd (CreateInProgress (demo_lib []) (Target demo_mo) (Method demo_mo) 2 ?w))) = None"
    by (simp add: CreateInProgress_def git_PlainOpen_def repo_CreateTag_def progressTag_def demo_defs engine_defs)
  then obtain w2 where ap: "Apply (demo_lib []) demo_mo 1 2 ''units'' None None
          (snd (CreateInProgress (demo_lib []) (Target demo_mo) (Method demo_mo) 2 ?w)) = (None, w2)"
    by (metis prod.collapse)
  have "?run = (fst ?run, snd ?run)" by simp
  from CatchUpLatest_write_ahead[OF this] repo absent tr show ?thesis
    by (simp add: ap demo_base demo_names)
qed

text \<open>
  The claim as first stated, with the progress tag always written to \<open>latest\<close> before any
  change is dispatched, fails when a progress tag exists already: here it points at
  commit 1, \<^verbatim>\<open>CreateInProgress\<close> leaves it there, and both changes from commit 1 to
  commit 2 are dispatched without the progress tag ever pointing at commit 2.
\<close>

theorem CatchUpLatest_stale_progress_counterexample:
  "tag_of (snd (CreateInProgress (demo_lib []) demo_target ''systemd'' 2
        (demo_world [''current-systemd'' \<mapsto> 1, ''progress-systemd'' \<mapsto> 1]))) ''repo'' ''progress-systemd'' = Some 1 \<and>
   CatchUpLatest (demo_lib []) demo_mo 1 2 ''units'' None None
        (demo_world [''current-systemd'' \<mapsto> 1, ''progress-systemd'' \<mapsto> 1]) =
     (None,
      \<lparr>repos = [''repo'' \<mapsto> demo_repo [''current-systemd'' \<mapsto> 2]], sched = 0,
       trace = [MethodRun ''repo/units/a.service'' \<lparr>From_Name = ''a.service'', To_Name = ''a.service''\<rparr>,
                MethodRun ''repo/units/b.service'' \<lparr>From_Name = [], To_Name = ''b.service''\<rparr>,
                TagDeleted ''repo'' ''current-systemd'',
                TagCreated ''repo'' ''current-systemd'' 2,
                TagDeleted ''repo'' ''progress-systemd'']\<rparr>)"
  by (simp add: CatchUpLatest_def CreateInProgress_def UpdateCurrent_def DeleteInProgress_def
      git_PlainOpen_def repo_CreateTag_def repo_DeleteTag_def tag_of_def currentTag_def progressTag_def
      demo_defs engine_defs fun_upd_twist)

section \<open>Properties of the state tag store\<close>

text \<open>
  Claim C5, as amended. On a clone that can be opened: \<^verbatim>\<open>UpdateCurrent\<close> succeeds and
  leaves the current tag pointing at \<open>c\<close>, wherever it pointed before and whether or not
  it existed; an existing tag is first deleted and then created again.
  \<^verbatim>\<open>CreateInProgress\<close> succeeds too, also when the progress tag exists ("tag already
  exists" is not a failure), but it only creates: a progress tag that is absent is
  created pointing at \<open>c\<close>, and one that exists is left pointing where it did.
\<close>

theorem tag_write_effect:
  assumes "repos w (filepath_Base L (Url target)) \<noteq> None"
  shows "fst (UpdateCurrent L target method c w) = None \<and>
    tag_of (snd (UpdateCurrent L target method c w)) (filepath_Base L (Url target)) (currentTag method) = Some c \<and>
    trace (snd (UpdateCurrent L target method c w)) =
      trace w @
      (case tag_of w (filepath_Base L (Url target)) (currentTag method) of
         None \<Rightarrow> [] | Some old \<Rightarrow> [TagDeleted (filepath_Base L (Url target)) (currentTag method)]) @
      [TagCreated (filepath_Base L (Url target)) (currentTag method) c] \<and>
    fst (CreateInProgress L target method c w) = None \<and>
    tag_of (snd (CreateInProgress L target method c w)) (filepath_Base L (Url target)) (progressTag method) =
      (case tag_of w (filepath_Base L (Url target)) (progressTag method) of
         None \<Rightarrow> Some c | Some old \<Rightarrow> Some old) \<and>
    trace (snd (CreateInProgress L target method c w)) =
      trace w @
      (case tag_of w (filepath_Base L (Url target)) (progressTag method) of
         None \<Rightarrow> [TagCreated (filepath_Base L (Url target)) (progressTag method) c] | Some old \<Rightarrow> [])"
  using assms
  by (auto simp: UpdateCurrent_def CreateInProgress_def Let_def git_PlainOpen_def repo_DeleteTag_def
      repo_CreateTag_def tag_of_def split: option.splits)

theorem tag_write_effect_witness:
  "fst (UpdateCurrent (demo_lib []) demo_target ''systemd'' 2 (demo_world [''current-systemd'' \<mapsto> 1])) = None \<and>
   tag_of (snd (UpdateCurrent (demo_lib []) demo_target ''systemd'' 2 (demo_world [''current-systemd'' \<mapsto> 1])))
     ''repo'' ''current-systemd'' = Some 2 \<and>
   trace (snd (UpdateCurrent (demo_lib []) demo_target ''systemd'' 2 (demo_world [''current-systemd'' \<mapsto> 1]))) =
     [TagDeleted ''repo'' ''current-systemd'', TagCreated ''repo'' ''current-systemd'' 2] \<and>
   fst (CreateInProgress (demo_lib []) demo_target ''systemd'' 2 (demo_world [''current-systemd'' \<mapsto> 1])) = None \<and>
   tag_of (snd (CreateInProgress (demo_lib []) demo_target ''systemd'' 2 (demo_world [''current-systemd'' \<mapsto> 1])))
     ''repo'' ''progress-systemd'' = Some 2"
proof -
  let ?w = "demo_world [''current-systemd'' \<mapsto> (1::hash)]"
  have repo: "repos ?w (filepath_Base (demo_lib []) (Url demo_target)) \<noteq> None"
    by (simp add: demo_defs)
  have tags: "tag_of ?w ''repo'' ''current-systemd'' = Some 1" "tag_of ?w ''repo'' ''progress-systemd'' = None"
    "trace ?w = []"
    by (simp_all add: tag_of_def demo_defs)
  from tag_write_effect[OF repo, of "''systemd''" 2] tags show ?thesis
    by (simp add: demo_base currentTag_def progressTag_def)
qed

text \<open>
  The claim as first stated gives \<^verbatim>\<open>CreateInProgress\<close> the delete-then-create behaviour
  of \<^verbatim>\<open>UpdateCurrent\<close>. With the progress tag at commit 1, writing commit 2 reports
  success and the tag still points at commit 1.
\<close>

theorem CreateInProgress_keeps_existing_counterexample:
  "fst (CreateInProgress (demo_lib []) demo_target ''systemd'' 2 (demo_world [''progress-systemd'' \<mapsto> 1])) = None \<and>
   tag_of (snd (CreateInProgress (demo_lib []) demo_target ''systemd'' 2 (demo_world [''progress-systemd'' \<mapsto> 1])))
     ''repo'' (progressTag ''systemd'') = Some 1 \<and>
   (1::hash) \<noteq> 2"
  by (simp add: CreateInProgress_def git_PlainOpen_def repo_CreateTag_def tag_of_def progressTag_def demo_defs)

text \<open>
  Claim C8. Reading a tag that is absent (\<^verbatim>\<open>GetCurrent\<close>, \<^verbatim>\<open>GetInProgress\<close>) in a clone that
  can be opened returns the zero hash and no error; a tag that exists is returned; a
  read fails only when the repository cannot be opened. \<^verbatim>\<open>DeleteInProgress\<close> on a clone
  without a progress tag succeeds and changes nothing.
\<close>

theorem absent_tag_is_not_an_error:
  "(repos w (filepath_Base L (Url target)) \<noteq> None \<and>
      tag_of w (filepath_Base L (Url target)) (currentTag method) = None \<longrightarrow>
        GetCurrent L target method w = Inr zeroHash) \<and>
   (repos w (filepath_Base L (Url target)) \<noteq> None \<and>
      tag_of w (filepath_Base L (Url target)) (progressTag method) = None \<longrightarrow>
        GetInProgress L target method w = Inr zeroHash) \<and>
   (tag_of w (filepath_Base L (Url target)) (currentTag method) = Some c \<longrightarrow>
        GetCurrent L target method w = Inr c) \<and>
   (tag_of w (filepath_Base L (Url target)) (progressTag method) = Some c \<longrightarrow>
        GetInProgress L target method w = Inr c) \<and>
   (GetCurrent L target method w = Inl err \<longrightarrow>
        git_PlainOpen (filepath_Base L (Url target)) w = Inl ErrRepositoryNotExists \<and>
        err = WrapErr ErrRepositoryNotExists ''Error opening repository: %s'') \<and>
   (GetInProgress L target method w = Inl err \<longrightarrow>
        git_PlainOpen (filepath_Base L (Url target)) w = Inl ErrRepositoryNotExists \<and>
        err = WrapErr ErrRepositoryNotExists ''Error opening repository: %s'') \<and>
   (repos w (filepath_Base L (Url target)) \<noteq> None \<and>
      tag_of w (filepath_Base L (Url target)) (progressTag method) = None \<longrightarrow>
        DeleteInProgress L target method w = (None, w))"
  by (auto simp: GetCurrent_def GetInProgress_def DeleteInProgress_def Let_def git_PlainOpen_def repo_Tag_def
      repo_DeleteTag_def tag_of_def split: option.splits if_splits)

theorem absent_tag_is_not_an_error_witness:
  "GetCurrent (demo_lib []) demo_target ''systemd'' (demo_world Map.empty) = Inr zeroHash \<and>
   GetInProgress (demo_lib []) demo_target ''systemd'' (demo_world Map.empty) = Inr zeroHash \<and>
   DeleteInProgress (demo_lib []) demo_target ''systemd'' (demo_world Map.empty) = (None, demo_world Map.empty) \<and>
   GetCurrent (demo_lib []) demo_target ''systemd'' (demo_world [''current-systemd'' \<mapsto> 1]) = Inr 1"
proof -
  have repo: "repos (demo_world tags) (filepath_Base (demo_lib []) (Url demo_target)) \<noteq> None" for tags
    by (simp add: demo_defs)
  have none: "tag_of (demo_world Map.empty) (filepath_Base (demo_lib []) (Url demo_target)) n = None" for n
    by (simp add: tag_of_def demo_defs)
  have one: "tag_of (demo_world [''current-systemd'' \<mapsto> 1]) (filepath_Base (demo_lib []) (Url demo_target))
       (currentTag ''systemd'') = Some 1"
    by (simp add: tag_of_def demo_defs currentTag_def)
  from absent_tag_is_not_an_error[of "demo_world Map.empty" "demo_lib []" demo_target "''systemd''"] repo none
  have a: "GetCurrent (demo_lib []) demo_target ''systemd'' (demo_world Map.empty) = Inr zeroHash \<and>
   GetInProgress (demo_lib []) demo_target ''systemd'' (demo_world Map.empty) = Inr zeroHash \<and>
   DeleteInProgress (demo_lib []) demo_target ''systemd'' (demo_world Map.empty) = (None, demo_world Map.empty)"
    by simp
  from absent_tag_is_not_an_error[of "demo_world [''current-systemd'' \<mapsto> 1]" "demo_lib []" demo_target "''systemd''" 1] one
  have b: "GetCurrent (demo_lib []) demo_target ''systemd'' (demo_world [''current-systemd'' \<mapsto> 1]) = Inr 1"
    by simp
  from a b show ?thesis by simp
qed

section \<open>Properties of the change selector\<close>





text \<open>
  Claim C4, at its failing input. For a deletion the suffix check reads the "from" name
  but the glob is matched against the "to" name, which is empty. With the empty pattern,
  which matches the empty string only, the deletion of \<^verbatim>\<open>old.txt\<close> becomes a member of the
  changeset although \<^verbatim>\<open>old.txt\<close> does not match the glob. The same slip the other way
  round: with the pattern \<^verbatim>\<open>old.txt\<close>, which the file name matches, the deletion is left
  out because the empty string does not match.
\<close>

theorem deletion_glob_checked_on_empty_name:
  "getFilteredChangeMap (demo_lib []) ''repo'' ''units'' [(''old.txt'', 7)] [] None (Some []) =
     Inr [(\<lparr>From_Name = ''old.txt'', To_Name = []\<rparr>, deleteFile)] \<and>
   (case glob_Compile (demo_lib []) [] of Inl err \<Rightarrow> False | Inr g \<Rightarrow> g [] \<and> \<not> g ''old.txt'') \<and>
   getFilteredChangeMap (demo_lib []) ''repo'' ''units'' [(''old.txt'', 7)] [] None (Some ''old.txt'') = Inr [] \<and>
   (case glob_Compile (demo_lib []) ''old.txt'' of Inl err \<Rightarrow> False | Inr g \<Rightarrow> g ''old.txt'' \<and> \<not> g [])"
  by (simp add: demo_defs engine_defs)

lemma changeMap_loop_no_suffixes:
  "changeMap_loop L directory targetPath (Some []) g changes = []"
  by (induction changes) (simp_all add: checkTag_def)

text \<open>
  Claim C10. \<^verbatim>\<open>checkTag\<close> tells a nil suffix list from an empty one: nil accepts every
  file name, the empty list rejects every file name, and so with the empty list the
  filtered changeset is empty whenever it is computed.
\<close>

theorem checkTag_nil_and_empty:
  "checkTag None name \<and> \<not> checkTag (Some []) name \<and>
   (getFilteredChangeMap L directory targetPath currentTree desiredTree (Some []) globPattern = Inr changeMap
      \<longrightarrow> changeMap = [])"
  by (auto simp: checkTag_def getFilteredChangeMap_def changeMap_loop_no_suffixes split: sum.splits)

theorem checkTag_nil_and_empty_witness:
  "checkTag None ''a.service'' \<and> \<not> checkTag (Some []) ''a.service'' \<and>
   getFilteredChangeMap (demo_lib []) ''repo'' ''units'' [] [(''a.service'', 101)] None None =
     Inr [(\<lparr>From_Name = [], To_Name = ''a.service''\<rparr>, ''repo/units/a.service'')] \<and>
   getFilteredChangeMap (demo_lib []) ''repo'' ''units'' [] [(''a.service'', 101)] (Some []) None = Inr []"
proof -
  have "\<exists>cm. getFilteredChangeMap (demo_lib []) ''repo'' ''units'' [] [(''a.service'', 101)] (Some []) None = Inr cm"
    by (simp add: demo_defs engine_defs)
  then obtain cm where cm: "getFilteredChangeMap (demo_lib []) ''repo'' ''units'' [] [(''a.service'', 101)] (Some []) None = Inr cm"
    by blast
  have full: "getFilteredChangeMap (demo_lib []) ''repo'' ''units'' [] [(''a.service'', 101)] None None =
     Inr [(\<lparr>From_Name = [], To_Name = ''a.service''\<rparr>, ''repo/units/a.service'')]"
    by (simp add: demo_defs engine_defs)
  from checkTag_nil_and_empty[of "''a.service''" "demo_lib []" "''repo''" "''units''" "[]" "[(''a.service'', 101)]" None cm]
    cm full show ?thesis by simp
qed

section \<open>Properties of Apply and of the initial catch-up\<close>

text \<open>
  Claim C9. When the desired state is the zero hash, \<^verbatim>\<open>Apply\<close> returns its own error and
  leaves the world as it was, whatever the clone, the trees and the pattern are: no tree
  is resolved, no diff computed and no change dispatched. So \<^verbatim>\<open>CatchUpCurrent\<close>, which
  applies from the zero hash to \<open>current\<close>, returns that error wrapped when \<open>current\<close> is
  the zero hash, which is what \<^verbatim>\<open>GetCurrent\<close> returns for an absent tag.
\<close>

theorem Apply_refuses_zero_desired:
  "Apply L mo currentState zeroHash targetPath tags globPattern w =
     (Some (Msg ''Cannot run Apply if desired state is empty''), w) \<and>
   CatchUpCurrent L mo zeroHash targetPath tags globPattern w =
     (Some (WrapErr (Msg ''Cannot run Apply if desired state is empty'') ''Failed to apply changes''), w)"
  by (simp add: Apply_def CatchUpCurrent_def IsZero_def)

text \<open>
  Claim C6. The zero hash resolves to the empty tree, in every world. When \<open>current\<close> is
  not zero and resolves to the subtree \<open>desiredTree\<close> at the target path,
  \<^verbatim>\<open>CatchUpCurrent\<close> computes its changeset from the diff of the empty tree against that
  subtree, invokes the engine method on exactly the entries of that changeset and leaves
  the clones alone; it fails exactly when the dispatcher reports a failure.
\<close>

theorem CatchUpCurrent_from_empty_tree:
  assumes "current \<noteq> zeroHash"
    and "getSubTreeFromHash L (filepath_Base L (Url (Target mo))) current targetPath w = Inr desiredTree"
    and "glob_Compile L (case globPattern of None \<Rightarrow> ''**'' | Some pat \<Rightarrow> pat) = Inr g"
    and "tree_Diff L (empty_Tree L) desiredTree = Inr changes"
  shows "getSubTreeFromHash L directory zeroHash subDir w = Inr (empty_Tree L) \<and>
    getFilteredChangeMap L (filepath_Base L (Url (Target mo))) targetPath (empty_Tree L) desiredTree tag globPattern =
      Inr (changeMap_loop L (filepath_Base L (Url (Target mo))) targetPath tag g changes) \<and>
    dispatched (trace (snd (CatchUpCurrent L mo current targetPath tag globPattern w))) =
      dispatched (trace w) @
      map (\<lambda>(c, changePath). (changePath, c))
        (changeMap_loop L (filepath_Base L (Url (Target mo))) targetPath tag g changes) \<and>
    repos (snd (CatchUpCurrent L mo current targetPath tag globPattern w)) = repos w \<and>
    fst (CatchUpCurrent L mo current targetPath tag globPattern w) =
      (case first_report (sched w)
              (task_results L mo (changeMap_loop L (filepath_Base L (Url (Target mo))) targetPath tag g changes)) of
         None \<Rightarrow> None
       | Some err \<Rightarrow>
           Some (WrapErr (WrapErr err ''Error applying change from %s to %s for path %s in %s'')
                   ''Failed to apply changes''))"
  using assms
  by (auto simp: CatchUpCurrent_def Apply_def Let_def IsZero_def getFilteredChangeMap_def runChangesConcurrent_def
      dispatched_append dispatched_runs getSubTreeFromHash_def split: option.splits)

theorem CatchUpCurrent_from_empty_tree_witness:
  "getSubTreeFromHash (demo_lib []) ''repo'' zeroHash ''units'' (demo_world Map.empty) = Inr [] \<and>
   dispatched (trace (snd (CatchUpCurrent (demo_lib []) demo_mo 2 ''units'' None None (demo_world Map.empty)))) =
     [(''repo/units/a.service'', \<lparr>From_Name = [], To_Name = ''a.service''\<rparr>),
      (''repo/units/b.service'', \<lparr>From_Name = [], To_Name = ''b.service''\<rparr>)] \<and>
   fst (CatchUpCurrent (demo_lib []) demo_mo 2 ''units'' None None (demo_world Map.empty)) = None"
proof -
  have ne: "(2::hash) \<noteq> zeroHash" by (simp add: zeroHash_def)
  have sub: "getSubTreeFromHash (demo_lib []) (filepath_Base (demo_lib []) (Url (Target demo_mo))) 2 ''units''
       (demo_world Map.empty) = Inr [(''a.service'', 102), (''b.service'', 103)]"
    by (simp add: demo_defs engine_defs)
  have gl: "glob_Compile (demo_lib []) (case None of None \<Rightarrow> ''**'' | Some pat \<Rightarrow> pat) = Inr (\<lambda>s. True)"
    by (simp add: demo_defs)
  have df: "tree_Diff (demo_lib []) (empty_Tree (demo_lib [])) [(''a.service'', 102), (''b.service'', 103)] =
      Inr [\<lparr>From_Name = [], To_Name = ''a.service''\<rparr>, \<lparr>From_Name = [], To_Name = ''b.service''\<rparr>]"
    by (simp add: demo_defs)
  have tr: "trace (demo_world Map.empty) = []" by (simp add: demo_defs)
  from CatchUpCurrent_from_empty_tree[OF ne sub gl df, of "''repo''" "''units''" None] tr
  show ?thesis
    by (simp add: demo_defs checkTag_def first_report_def task_results_def)
qed

section \<open>Properties of the concurrent dispatcher\<close>

text \<open>
  Claim C3, at its failing input: two changes, the engine method fails on the first.
  As soon as the first task has failed and its error is received, the function returns:
  it has received one value for two tasks, and the second task is still running its
  engine method. When that one finishes too, both goroutines are blocked sending nil on
  a channel nobody receives from, with no step left for either.
\<close>

theorem runChangesConcurrent_returns_before_all_tasks:
  "run [Some (Msg ''apply failed''), None] [Finish 0, Receive 0] (init [Some (Msg ''apply failed''), None]) =
     Some ([SendNil, Running], Returned (Some (wrapTaskErr (Msg ''apply failed'')))) \<and>
   run [Some (Msg ''apply failed''), None] [Finish 0, Receive 0, Finish 1] (init [Some (Msg ''apply failed''), None]) =
     Some ([SendNil, SendNil], Returned (Some (wrapTaskErr (Msg ''apply failed'')))) \<and>
   (\<forall>a. step [Some (Msg ''apply failed''), None] a
          ([SendNil, SendNil], Returned (Some (wrapTaskErr (Msg ''apply failed'')))) = None)"
proof -
  have "step [Some (Msg ''apply failed''), None] a
          ([SendNil, SendNil], Returned (Some (wrapTaskErr (Msg ''apply failed'')))) = None" for a
    by (cases a) (auto simp: nth_Cons less_Suc_eq_0_disj split: nat.splits)
  then show ?thesis
    by (simp add: init_def)
qed

text \<open>
  What does hold of the dispatcher, for every schedule: it returns nil exactly when no
  task failed, and then every goroutine has finished; an error it returns is the report
  of a failed task. Conversely the report of every failed task can be the one returned,
  so the value \<^verbatim>\<open>runChangesConcurrent\<close> has in the model covers the schedules exactly.
\<close>

lemma count_list_update_new:
  "i < length xs \<Longrightarrow> xs ! i \<noteq> x \<Longrightarrow> count_list (xs[i := x]) x = Suc (count_list xs x)"
  by (induction xs arbitrary: i) (auto simp: nth_Cons split: nat.splits)

lemma count_list_update_other:
  "xs ! i \<noteq> x \<Longrightarrow> y \<noteq> x \<Longrightarrow> count_list (xs[i := y]) x = count_list xs x"
  by (induction xs arbitrary: i) (auto simp: nth_Cons split: nat.splits)

lemma count_list_full:
  "count_list xs x = length xs \<Longrightarrow> y \<in> set xs \<Longrightarrow> y = x"
proof (induction xs)
  case Nil
  then show ?case by simp
next
  case (Cons a xs)
  have le: "count_list xs x \<le> length xs" by (rule count_le_length)
  from Cons.prems(1) le have "a = x" "count_list xs x = length xs"
    by (auto split: if_splits)
  with Cons show ?case by auto
qed

lemma failures_member:
  "i < length outs \<Longrightarrow> outs ! i = Some e \<Longrightarrow> wrapTaskErr e \<in> set (failures outs)"
  by (induction outs arbitrary: i rule: failures.induct) (auto simp: nth_Cons split: nat.splits)

lemma failures_source:
  "e \<in> set (failures outs) \<Longrightarrow> \<exists>i e0. i < length outs \<and> outs ! i = Some e0 \<and> e = wrapTaskErr e0"
proof (induction outs rule: failures.induct)
  case 1
  then show ?case by simp
next
  case (2 outs)
  then obtain i e0 where "i < length outs" "outs ! i = Some e0" "e = wrapTaskErr e0" by auto
  then have "Suc i < length (None # outs) \<and> (None # outs) ! Suc i = Some e0 \<and> e = wrapTaskErr e0" by simp
  then show ?case by blast
next
  case (3 err outs)
  show ?case
  proof (cases "e = wrapTaskErr err")
    case True
    then have "0 < length (Some err # outs) \<and> (Some err # outs) ! 0 = Some err \<and> e = wrapTaskErr err" by simp
    then show ?thesis by blast
  next
    case False
    with 3 obtain i e0 where "i < length outs" "outs ! i = Some e0" "e = wrapTaskErr e0" by auto
    then have "Suc i < length (Some err # outs) \<and> (Some err # outs) ! Suc i = Some e0 \<and> e = wrapTaskErr e0" by simp
    then show ?thesis by blast
  qed
qed

lemma failures_empty: "(failures outs = []) = (\<forall>out \<in> set outs. out = None)"
  by (induction outs rule: failures.induct) auto

lemma dispatch_inv_init: "dispatch_inv outs (init outs)"
  by (simp add: init_def)

lemma dispatch_inv_step: "dispatch_inv outs c \<Longrightarrow> step outs a c = Some c' \<Longrightarrow> dispatch_inv outs c'"
proof (induction outs a c rule: step.induct)
  case (1 outs i ts rc)
  show ?case
  proof (cases rc)
    case (Receiving n)
    with 1 show ?thesis
      by (cases "outs ! i")
        (auto simp: nth_list_update count_list_update_other failures_member split: if_splits)
  next
    case (Returned r)
    with 1 show ?thesis
      by (cases r; cases "outs ! i")
        (auto simp: nth_list_update failures_member split: if_splits)
  qed
next
  case (2 outs i ts n)
  then show ?case
    by (cases "ts ! i")
      (auto simp: nth_list_update count_list_update_new split: if_splits)
next
  case (5 outs ts)
  then have full: "count_list ts Finished = length ts" and len: "length ts = length outs"
    and nil: "\<forall>i < length ts. ts ! i = Finished \<longrightarrow> outs ! i = None"
    by auto
  have "ts ! i = Finished" if "i < length ts" for i
    using count_list_full[OF full, of "ts ! i"] that by simp
  with nil len 5 show ?case by auto
qed simp_all

lemma dispatch_inv_run: "dispatch_inv outs c \<Longrightarrow> run outs as c = Some c' \<Longrightarrow> dispatch_inv outs c'"
  by (induction as arbitrary: c) (auto split: option.splits dest: dispatch_inv_step)

lemma dispatcher_sound:
  assumes "run outs as (init outs) = Some (ts, Returned r)"
  shows "(r = None) = (\<forall>out \<in> set outs. out = None)"
    and "r = None \<Longrightarrow> \<forall>t \<in> set ts. t = Finished"
    and "r = Some e \<Longrightarrow> e \<in> set (failures outs)"
proof -
  from dispatch_inv_run[OF dispatch_inv_init assms] have i: "dispatch_inv outs (ts, Returned r)" .
  show "r = Some e \<Longrightarrow> e \<in> set (failures outs)" using i by auto
  show "r = None \<Longrightarrow> \<forall>t \<in> set ts. t = Finished" using i by (auto simp: in_set_conv_nth)
  show "(r = None) = (\<forall>out \<in> set outs. out = None)"
  proof (cases r)
    case None
    with i show ?thesis by (auto simp: in_set_conv_nth)
  next
    case (Some e)
    with i have "failures outs \<noteq> []" by auto
    with Some show ?thesis by (simp add: failures_empty)
  qed
qed

lemma run_append:
  "run outs (as @ bs) c = (case run outs as c of None \<Rightarrow> None | Some c' \<Rightarrow> run outs bs c')"
  by (induction as arbitrary: c) (auto split: option.splits)

lemma replicate_front:
  assumes "k < n"
  shows "(replicate k a @ replicate (n - k) b) ! k = b"
    and "(replicate k a @ replicate (n - k) b)[k := a] = replicate (Suc k) a @ replicate (n - Suc k) b"
proof -
  from assms have more: "n - k = Suc (n - Suc k)" by simp
  show "(replicate k a @ replicate (n - k) b) ! k = b"
    by (simp add: nth_append more)
  show "(replicate k a @ replicate (n - k) b)[k := a] = replicate (Suc k) a @ replicate (n - Suc k) b"
    by (simp add: list_update_append more replicate_append_same)
qed

lemma finish_all:
  assumes "\<forall>out \<in> set outs. out = None"
  shows "k \<le> length outs \<Longrightarrow>
    run outs (map Finish [0..<k]) (replicate (length outs) Running, rc) =
      Some (replicate k SendNil @ replicate (length outs - k) Running, rc)"
proof (induction k)
  case 0
  then show ?case by simp
next
  case (Suc k)
  then have k: "k < length outs" by simp
  with assms have out: "outs ! k = None" by simp
  from Suc k show ?case
    by (simp add: run_append replicate_front[OF k] out)
qed

lemma receive_nil:
  "i < length ts \<Longrightarrow> ts ! i = SendNil \<Longrightarrow>
     step outs (Receive i) (ts, Receiving (Suc m)) = Some (ts[i := Finished], Receiving m)"
  by simp

lemma receive_all:
  "k \<le> n \<Longrightarrow>
    run outs (map Receive [0..<k]) (replicate n SendNil, Receiving n) =
      Some (replicate k Finished @ replicate (n - k) SendNil, Receiving (n - k))"
proof (induction k)
  case 0
  then show ?case by simp
next
  case (Suc k)
  then have k: "k < n" by simp
  let ?ts = "replicate k Finished @ replicate (n - k) SendNil"
  have before: "run outs (map Receive [0..<k]) (replicate n SendNil, Receiving n) =
      Some (?ts, Receiving (Suc (n - Suc k)))"
    using Suc k by simp
  have "step outs (Receive k) (?ts, Receiving (Suc (n - Suc k))) =
      Some (?ts[k := Finished], Receiving (n - Suc k))"
    using k by (intro receive_nil) (simp_all add: replicate_front(1)[OF k])
  then have "step outs (Receive k) (?ts, Receiving (Suc (n - Suc k))) =
      Some (replicate (Suc k) Finished @ replicate (n - Suc k) SendNil, Receiving (n - Suc k))"
    by (simp only: replicate_front(2)[OF k])
  with before show ?case
    by (simp add: run_append del: replicate_Suc)
qed

lemma report_first:
  "i < length ts \<Longrightarrow> i < length outs \<Longrightarrow> ts ! i = Running \<Longrightarrow> outs ! i = Some e0 \<Longrightarrow>
     run outs [Finish i, Receive i] (ts, Receiving (Suc n)) =
       Some (ts[i := SendNil], Returned (Some (wrapTaskErr e0)))"
  by simp

lemma dispatcher_complete:
  "\<exists>as ts. run outs as (init outs) = Some (ts, Returned (first_report k outs))"
proof (cases "failures outs")
  case Nil
  then have none: "\<forall>out \<in> set outs. out = None" by (simp add: failures_empty)
  let ?n = "length outs"
  have "run outs (map Finish [0..<?n] @ map Receive [0..<?n] @ [Return]) (init outs) =
          Some (replicate ?n Finished, Returned None)"
    using finish_all[OF none, of ?n "Receiving ?n"] receive_all[of ?n ?n outs]
    by (simp add: run_append init_def)
  with Nil show ?thesis by (auto simp: first_report_def)
next
  case (Cons e es)
  let ?e = "(e # es) ! (k mod length (e # es))"
  have "?e \<in> set (failures outs)" unfolding Cons by (rule nth_mem) simp
  from failures_source[OF this] obtain i e0 where
    i: "i < length outs" "outs ! i = Some e0" "?e = wrapTaskErr e0" by blast
  then obtain n where n: "length outs = Suc n" by (cases "length outs") auto
  have start: "init outs = (replicate (length outs) Running, Receiving (Suc n))"
    by (simp only: init_def n)
  have "run outs [Finish i, Receive i] (init outs) =
          Some ((replicate (length outs) Running)[i := SendNil], Returned (Some ?e))"
    unfolding start i(3) using i(1,2) by (intro report_first) simp_all
  with Cons show ?thesis unfolding first_report_def by (simp only: list.case) blast
qed

lemma dispatcher_results:
  "(\<exists>as ts. run outs as (init outs) = Some (ts, Returned r)) = (\<exists>k. r = first_report k outs)"
proof
  assume "\<exists>as ts. run outs as (init outs) = Some (ts, Returned r)"
  then obtain as ts where reach: "run outs as (init outs) = Some (ts, Returned r)" by blast
  show "\<exists>k. r = first_report k outs"
  proof (cases r)
    case None
    with dispatcher_sound(1)[OF reach] have "failures outs = []" by (simp add: failures_empty)
    with None show ?thesis by (simp add: first_report_def)
  next
    case (Some e)
    from dispatcher_sound(3)[OF reach Some] obtain j where j: "j < length (failures outs)" "failures outs ! j = e"
      by (auto simp: in_set_conv_nth)
    then have "first_report j outs = Some e"
      by (cases "failures outs") (simp_all add: first_report_def)
    with Some show ?thesis by metis
  qed
next
  assume "\<exists>k. r = first_report k outs"
  then show "\<exists>as ts. run outs as (init outs) = Some (ts, Returned r)"
    using dispatcher_complete by metis
qed

end
